theory Spec2Isabelle
  imports Complex_Main
begin

section \<open>Numeric values\<close>

text \<open>
  The rain and reflectivity samples are Python floats. A float is either NaN or a
  number; the numbers are idealised as reals (rounding and the infinities are not
  modelled). Every ordering comparison with NaN is false, and \<open>!=\<close> with NaN is true.
\<close>

datatype fval = NaN | Fin real

datatype error = IndexError | KeyError | ZeroDivisionError | ValueError | ConsistencyError

fun isnan :: "fval \<Rightarrow> bool" where
  "isnan NaN = True"
| "isnan (Fin x) = False"

fun fge :: "fval \<Rightarrow> fval \<Rightarrow> bool" where
  "fge (Fin x) (Fin y) = (y \<le> x)"
| "fge NaN b = False"
| "fge (Fin x) NaN = False"

fun fle :: "fval \<Rightarrow> fval \<Rightarrow> bool" where
  "fle (Fin x) (Fin y) = (x \<le> y)"
| "fle NaN b = False"
| "fle (Fin x) NaN = False"

fun flt :: "fval \<Rightarrow> fval \<Rightarrow> bool" where
  "flt (Fin x) (Fin y) = (x < y)"
| "flt NaN b = False"
| "flt (Fin x) NaN = False"

fun fgt :: "fval \<Rightarrow> fval \<Rightarrow> bool" where
  "fgt (Fin x) (Fin y) = (y < x)"
| "fgt NaN b = False"
| "fgt (Fin x) NaN = False"

fun fne :: "fval \<Rightarrow> fval \<Rightarrow> bool" where
  "fne (Fin x) (Fin y) = (x \<noteq> y)"
| "fne NaN b = True"
| "fne (Fin x) NaN = True"

fun fadd :: "fval \<Rightarrow> fval \<Rightarrow> fval" where
  "fadd (Fin x) (Fin y) = Fin (x + y)"
| "fadd NaN b = NaN"
| "fadd (Fin x) NaN = NaN"

text \<open>\<open>x * n\<close> and \<open>x / n\<close> for a float \<open>x\<close> and a Python int \<open>n\<close>. Dividing a
  Python float by zero raises ZeroDivisionError, which is what is modelled; a numpy
  scalar would give NaN or an infinity with a warning instead. No theorem below relies on
  the difference: each either assumes a divisor other than zero or only needs that the
  quotient by zero is not a number.\<close>

fun fmul_int :: "fval \<Rightarrow> int \<Rightarrow> fval" where
  "fmul_int (Fin x) n = Fin (x * real_of_int n)"
| "fmul_int NaN n = NaN"

fun fdiv_int :: "fval \<Rightarrow> int \<Rightarrow> error + fval" where
  "fdiv_int a n =
     (if n = 0 then Inl ZeroDivisionError
      else (case a of NaN \<Rightarrow> Inr NaN | Fin x \<Rightarrow> Inr (Fin (x / real_of_int n))))"

text \<open>The builtin \<open>min(a, b)\<close> keeps its first argument unless the second is strictly
  smaller; \<open>min(list)\<close> runs the same comparison from the first element on. With a NaN
  in the data the result therefore depends on the order.\<close>

definition py_min2 :: "fval \<Rightarrow> fval \<Rightarrow> fval" where
  "py_min2 a b = (if flt b a then b else a)"

definition py_max2 :: "fval \<Rightarrow> fval \<Rightarrow> fval" where
  "py_max2 a b = (if fgt b a then b else a)"

fun py_min :: "fval \<Rightarrow> fval list \<Rightarrow> fval" where
  "py_min m [] = m"
| "py_min m (x # xs) = py_min (py_min2 m x) xs"

fun py_max :: "fval \<Rightarrow> fval list \<Rightarrow> fval" where
  "py_max m [] = m"
| "py_max m (x # xs) = py_max (py_max2 m x) xs"

fun fsum :: "fval list \<Rightarrow> fval" where
  "fsum [] = Fin 0"
| "fsum (x # xs) = fadd x (fsum xs)"

text \<open>\<open>statistics.mean\<close> of a non-empty list: NaN as soon as one sample is NaN.\<close>

definition mean :: "fval list \<Rightarrow> fval" where
  "mean vs = (case fsum vs of NaN \<Rightarrow> NaN | Fin s \<Rightarrow> Fin (s / real (length vs)))"

text \<open>The two blocks \<open>if len(xs) == 0: ... nan ... else: min, mean, max\<close> of the
  segmenter, which are the same code for the reflectivity and the rain samples.\<close>

definition min_avg_max :: "fval list \<Rightarrow> fval \<times> fval \<times> fval" where
  "min_avg_max vs =
     (case vs of
        [] \<Rightarrow> (NaN, NaN, NaN)
      | x # xs \<Rightarrow> (py_min x xs, mean (x # xs), py_max x xs))"

text \<open>Indexing a sequence with a Python int: a negative index counts from the end, an
  index out of range raises IndexError.\<close>

definition py_index :: "'a list \<Rightarrow> int \<Rightarrow> error + 'a" where
  "py_index xs k =
     (let n = int (length xs); k' = (if k < 0 then k + n else k)
      in if 0 \<le> k' \<and> k' < n then Inr (xs ! nat k') else Inl IndexError)"

text \<open>The slice \<open>xs[:-k]\<close> for \<open>k \<ge> 0\<close>: all but the last \<open>k\<close> elements, and nothing
  at all for \<open>k = 0\<close> (where it is \<open>xs[:0]\<close>).\<close>

definition py_drop_last :: "'a list \<Rightarrow> nat \<Rightarrow> 'a list" where
  "py_drop_last xs k = (if k = 0 then [] else take (length xs - k) xs)"

section \<open>Event\<close>

text \<open>Timestamps are whole seconds; \<open>duration\<close> is
  \<open>int((end_time - start_time).total_seconds() // 3600)\<close>, a floored division.\<close>

record event =
  start_time :: int
  end_time :: int
  duration :: int
  stations :: "string list"
  num_stations :: nat
  reflect_min :: fval
  reflect_avg :: fval
  reflect_max :: fval
  rain_intens_min :: fval
  rain_intens_avg :: fval
  rain_intens_max :: fval
  rain_cum_avg :: fval
  type :: string

definition Event ::
  "int \<Rightarrow> int \<Rightarrow> string list \<Rightarrow> fval \<Rightarrow>
   fval \<Rightarrow> fval \<Rightarrow> fval \<Rightarrow> fval \<Rightarrow>
   fval \<Rightarrow> event" where
  "Event st en sts rmin ravg rmax imin iavg imax =
     \<lparr> start_time = st, end_time = en, duration = (en - st) div 3600,
       stations = sts, num_stations = length sts,
       reflect_min = rmin, reflect_avg = ravg, reflect_max = rmax,
       rain_intens_min = imin, rain_intens_avg = iavg, rain_intens_max = imax,
       rain_cum_avg = fmul_int iavg ((en - st) div 3600),
       type = (if fle iavg (Fin 5) then ''light''
               else if fle iavg (Fin 25) then ''moderate''
               else if fle iavg (Fin 50) then ''heavy''
               else ''extreme'') \<rparr>"

text \<open>The ordering of the statistics of an event: \<open>min \<le> avg \<le> max\<close> for the
  reflectivity and for the rain intensity, with Python's comparison (false on NaN).\<close>

definition stats_ordered :: "event \<Rightarrow> bool" where
  "stats_ordered e \<longleftrightarrow>
     fle (reflect_min e) (reflect_avg e) \<and> fle (reflect_avg e) (reflect_max e)
     \<and> fle (rain_intens_min e) (rain_intens_avg e) \<and> fle (rain_intens_avg e) (rain_intens_max e)"

section \<open>Single-station segmenter\<close>

text \<open>
  The inner loop \<open>for j in range(i, len(vals))\<close>: it appends \<open>vals[j]\<close> to the
  candidate, resets or increments the counter of consecutive values below the
  threshold, and breaks as soon as the counter exceeds \<open>max_no_rain\<close>. The result is
  \<open>Some (j, candidate_event, consecutive_hours_no_rain)\<close> at the break, and \<open>None\<close>
  when the range is exhausted without one. In the pieces of the segmenter \<open>G\<close> is
  \<open>max_no_rain\<close> and \<open>thr\<close> is \<open>min_rain_threshold\<close>.
\<close>

function for_j ::
  "fval list \<Rightarrow> fval \<Rightarrow> int \<Rightarrow> nat \<Rightarrow>
   fval list \<Rightarrow> nat \<Rightarrow> (nat \<times> fval list \<times> nat) option" where
  "for_j vals thr G j cand cnt =
     (if j < length vals then
        (if fge (vals ! j) thr then for_j vals thr G (Suc j) (cand @ [vals ! j]) 0
         else if int (cnt + 1) > G then Some (j, cand @ [vals ! j], cnt + 1)
         else for_j vals thr G (Suc j) (cand @ [vals ! j]) (cnt + 1))
      else None)"
  by pat_completeness auto
termination
  by (relation "measure (\<lambda>(vals, thr, G, j, cand, cnt). length vals - j)") auto

declare for_j.simps [simp del]

text \<open>
  The body of the \<open>if consecutive_hours_no_rain > max_no_rain\<close> branch up to the
  assignment \<open>i = j + 1\<close>. The state is \<open>(events, Z, R)\<close>. \<open>radar_df station s e\<close>
  stands for \<open>list(radar_df.loc[s:e][station].values)\<close>, which pandas computes; the
  segmenter drops its last row. The event is appended and \<open>R\<close> extended before the
  sampling check, \<open>Z\<close> after it; a raised exception leaves none of them to the caller.
  The source raises a plain \<open>Exception\<close> there, named ConsistencyError here.
\<close>

type_synonym seg_state = "event list \<times> fval list \<times> fval list"

type_synonym radar_lookup = "string \<Rightarrow> int \<Rightarrow> int \<Rightarrow> error + fval list"

definition close_candidate ::
  "string \<Rightarrow> int list \<Rightarrow> radar_lookup \<Rightarrow> int \<Rightarrow>
   string \<Rightarrow> nat \<Rightarrow> nat \<Rightarrow> fval list \<Rightarrow>
   nat \<Rightarrow> seg_state \<Rightarrow> error + seg_state" where
  "close_candidate station datetime radar_df G temporal_res i j cand cnt st =
     (case py_index datetime (int i) of
        Inl e \<Rightarrow> Inl e
      | Inr start_t \<Rightarrow>
          (case py_index datetime (int j - G) of
             Inl e \<Rightarrow> Inl e
           | Inr end_t \<Rightarrow>
               (case radar_df station start_t end_t of
                  Inl e \<Rightarrow> Inl e
                | Inr rows \<Rightarrow>
                    (let reflect_vals = butlast rows;
                         rain_vals = py_drop_last cand cnt;
                         rs = min_avg_max reflect_vals;
                         ri = min_avg_max rain_vals
                     in if \<not> isnan (fst (snd ri)) then
                          (let events' = fst st @ [Event start_t end_t [station]
                                 (fst rs) (fst (snd rs)) (snd (snd rs))
                                 (fst ri) (fst (snd ri)) (snd (snd ri))];
                               R' = snd (snd st) @ rain_vals
                           in if temporal_res = ''6min'' then
                                (if length reflect_vals \<noteq> 10 * length rain_vals
                                 then Inl ConsistencyError
                                 else Inr (events', fst (snd st) @ reflect_vals, R'))
                              else if temporal_res = ''60min'' \<or> temporal_res = ''1H'' then
                                (if length reflect_vals \<noteq> length rain_vals
                                 then Inl ConsistencyError
                                 else Inr (events', fst (snd st) @ reflect_vals, R'))
                              else Inr (events', fst (snd st) @ reflect_vals, R'))
                        else Inr st))))"

text \<open>
  One pass through the body of \<open>while i < len(vals)\<close>, returning the value of \<open>i\<close>
  for the next test of the loop condition. After a break the body has set
  \<open>i = j + 1\<close>, and the statement \<open>i += 1\<close> that ends the body runs on every pass.
\<close>

definition loop_body ::
  "string \<Rightarrow> fval list \<Rightarrow> int list \<Rightarrow>
   radar_lookup \<Rightarrow> int \<Rightarrow> fval \<Rightarrow> string \<Rightarrow>
   nat \<Rightarrow> seg_state \<Rightarrow> error + (nat \<times> seg_state)" where
  "loop_body station vals datetime radar_df G thr temporal_res i st =
     (if fge (vals ! i) thr then
        (case for_j vals thr G i [] 0 of
           None \<Rightarrow> Inr (i + 1, st)
         | Some (j, cand, cnt) \<Rightarrow>
             (case close_candidate station datetime radar_df G temporal_res i j cand cnt st of
                Inl e \<Rightarrow> Inl e
              | Inr st' \<Rightarrow> Inr ((j + 1) + 1, st')))
      else Inr (i + 1, st))"

lemma for_j_bounds:
  "for_j vals thr G j cand cnt = Some (j', cand', cnt') \<Longrightarrow> j \<le> j' \<and> j' < length vals"
proof (induction vals thr G j cand cnt rule: for_j.induct)
  case (1 vals thr G j cand cnt)
  show ?case
  proof (cases "j < length vals")
    case False
    with "1.prems" show ?thesis by (simp add: for_j.simps [of vals thr G j cand cnt])
  next
    case inb: True
    show ?thesis
    proof (cases "fge (vals ! j) thr")
      case True
      with inb "1.prems" have "for_j vals thr G (Suc j) (cand @ [vals ! j]) 0 = Some (j', cand', cnt')"
        by (simp add: for_j.simps [of vals thr G j cand cnt])
      with "1.IH"(1) inb True show ?thesis by fastforce
    next
      case below: False
      show ?thesis
      proof (cases "int (cnt + 1) > G")
        case True
        with inb below "1.prems" show ?thesis
          by (simp add: for_j.simps [of vals thr G j cand cnt])
      next
        case False
        with inb below "1.prems"
        have "for_j vals thr G (Suc j) (cand @ [vals ! j]) (cnt + 1) = Some (j', cand', cnt')"
          by (simp add: for_j.simps [of vals thr G j cand cnt])
        with "1.IH"(2) inb below False show ?thesis by fastforce
      qed
    qed
  qed
qed

lemma loop_body_advances:
  assumes "loop_body station vals datetime radar_df G thr temporal_res i st = Inr (i', st')"
  shows "i < i'"
proof (cases "fge (vals ! i) thr")
  case False
  with assms show ?thesis by (simp add: loop_body_def)
next
  case True
  show ?thesis
  proof (cases "for_j vals thr G i [] 0")
    case None
    with True assms show ?thesis by (simp add: loop_body_def)
  next
    case (Some r)
    obtain j cand cnt where r: "r = (j, cand, cnt)" by (cases r) auto
    from Some r have "i \<le> j" using for_j_bounds by blast
    with True Some r assms show ?thesis
      by (auto simp: loop_body_def split: sum.splits)
  qed
qed

text \<open>The loop \<open>while i < len(vals)\<close>; an exception raised in the body ends the run.\<close>

function while_i ::
  "string \<Rightarrow> fval list \<Rightarrow> int list \<Rightarrow>
   radar_lookup \<Rightarrow> int \<Rightarrow> fval \<Rightarrow> string \<Rightarrow>
   nat \<Rightarrow> seg_state \<Rightarrow> error + seg_state" where
  "while_i station vals datetime radar_df G thr temporal_res i st =
     (if i < length vals then
        (case loop_body station vals datetime radar_df G thr temporal_res i st of
           Inl e \<Rightarrow> Inl e
         | Inr (i', st') \<Rightarrow> while_i station vals datetime radar_df G thr temporal_res i' st')
      else Inr st)"
  by pat_completeness auto
termination
proof (relation "measure (\<lambda>(station, vals, datetime, radar_df, G, thr, temporal_res, i, st). length vals - i)")
  show "wf (measure (\<lambda>(station, vals, datetime, radar_df, G, thr, temporal_res, i, st). length vals - i))"
    by simp
next
  fix station vals datetime radar_df G thr temporal_res i st x2 x y
  assume "i < length vals"
    and "loop_body station vals datetime radar_df G thr temporal_res i st = Inr x2"
    and "(x, y) = x2"
  then have "i < x" using loop_body_advances by metis
  with \<open>i < length vals\<close>
  show "((station, vals, datetime, radar_df, G, thr, temporal_res, x, y),
         (station, vals, datetime, radar_df, G, thr, temporal_res, i, st))
        \<in> measure (\<lambda>(station, vals, datetime, radar_df, G, thr, temporal_res, i, st). length vals - i)"
    by simp
qed

declare while_i.simps [simp del]

definition select_events_single_station ::
  "string \<Rightarrow> fval list \<Rightarrow> int list \<Rightarrow>
   radar_lookup \<Rightarrow> int \<Rightarrow> fval \<Rightarrow> string \<Rightarrow>
   error + seg_state" where
  "select_events_single_station station vals datetime radar_df max_no_rain min_rain_threshold temporal_res =
     while_i station vals datetime radar_df max_no_rain min_rain_threshold temporal_res 0 ([], [], [])"

text \<open>
  The loop states \<open>(i, (events, Z, R))\<close> that a run passes through at the test of the
  loop condition: the initial one, and the one after each pass through the body.
\<close>

inductive scan_reaches ::
  "string \<Rightarrow> fval list \<Rightarrow> int list \<Rightarrow> radar_lookup \<Rightarrow> int \<Rightarrow> fval \<Rightarrow> string \<Rightarrow>
   nat \<Rightarrow> seg_state \<Rightarrow> bool"
  for station vals datetime radar_df G thr temporal_res where
  start: "scan_reaches station vals datetime radar_df G thr temporal_res 0 ([], [], [])"
| step: "scan_reaches station vals datetime radar_df G thr temporal_res i st \<Longrightarrow>
         i < length vals \<Longrightarrow>
         loop_body station vals datetime radar_df G thr temporal_res i st = Inr (i', st') \<Longrightarrow>
         scan_reaches station vals datetime radar_df G thr temporal_res i' st'"

code_pred (modes: i \<Rightarrow> i \<Rightarrow> i \<Rightarrow> i \<Rightarrow> i \<Rightarrow> i \<Rightarrow> i \<Rightarrow> o \<Rightarrow> o \<Rightarrow> bool) scan_reaches .

text \<open>
  A radar table with a sorted time index, as the loader supplies it: one column of
  \<open>(timestamp, value)\<close> rows per station. On such an index the label slice
  \<open>.loc[s:e]\<close> keeps the rows with \<open>s \<le> t \<le> e\<close>, both ends included; a station
  that is no column raises KeyError.
\<close>

definition loc_values ::
  "(string \<times> (int \<times> fval) list) list \<Rightarrow> string \<Rightarrow>
   int \<Rightarrow> int \<Rightarrow> error + fval list" where
  "loc_values df station s e =
     (case map_of df station of
        None \<Rightarrow> Inl KeyError
      | Some rows \<Rightarrow> Inr (map snd (filter (\<lambda>r. s \<le> fst r \<and> fst r \<le> e) rows)))"

section \<open>Multi-station merger\<close>

text \<open>
  \<open>merge_two_events\<close>: the averages are weighted by the \<open>duration\<close> fields and divided
  by their sum, which raises ZeroDivisionError when the sum is zero; the other fields
  are recombined with \<open>min\<close>, \<open>max\<close> and list concatenation, and a fresh Event derives
  duration, cumulative rain and type again.
\<close>

definition merge_two_events :: "event \<Rightarrow> event \<Rightarrow> error + event" where
  "merge_two_events e1 e2 =
     (case fdiv_int (fadd (fmul_int (reflect_avg e1) (duration e1))
                          (fmul_int (reflect_avg e2) (duration e2)))
                    (duration e1 + duration e2) of
        Inl err \<Rightarrow> Inl err
      | Inr ravg \<Rightarrow>
          (case fdiv_int (fadd (fmul_int (rain_intens_avg e1) (duration e1))
                               (fmul_int (rain_intens_avg e2) (duration e2)))
                         (duration e1 + duration e2) of
             Inl err \<Rightarrow> Inl err
           | Inr iavg \<Rightarrow>
               Inr (Event (min (start_time e1) (start_time e2))
                          (max (end_time e1) (end_time e2))
                          (stations e1 @ stations e2)
                          (py_min2 (reflect_min e1) (reflect_min e2))
                          ravg
                          (py_max2 (reflect_max e1) (reflect_max e2))
                          (py_min2 (rain_intens_min e1) (rain_intens_min e2))
                          iavg
                          (py_max2 (rain_intens_max e1) (rain_intens_max e2)))))"


text \<open>
  \<open>plot_single_events\<close>: the loop \<open>for i in range(100)\<close> reads \<open>events[i]\<close> and adds the
  rectangle \<open>((start, len(events) - i), end - start)\<close>. The rendering itself is left to
  matplotlib; what the function can do to its caller is raise from \<open>events[i]\<close>.
\<close>

fun plot_rectangles ::
  "event list \<Rightarrow> nat list \<Rightarrow> error + (int \<times> int \<times> int) list" where
  "plot_rectangles events [] = Inr []"
| "plot_rectangles events (i # ixs) =
     (case py_index events (int i) of
        Inl err \<Rightarrow> Inl err
      | Inr e \<Rightarrow>
          (case plot_rectangles events ixs of
             Inl err \<Rightarrow> Inl err
           | Inr rects \<Rightarrow>
               Inr ((start_time e, int (length events) - int i, end_time e - start_time e) # rects)))"

definition plot_single_events ::
  "event list \<Rightarrow> error + (int \<times> int \<times> int) list" where
  "plot_single_events events = plot_rectangles events [0..<100]"

text \<open>
  \<open>merge_overlapping_events\<close>: a stable sort on the start time, the plot of the sorted
  events, then the loop over \<open>events[1:]\<close> that either replaces \<open>result[-1]\<close> by its
  merge with the current event or appends the current event.
\<close>

fun merge_loop :: "event list \<Rightarrow> event list \<Rightarrow> error + event list" where
  "merge_loop result [] = Inr result"
| "merge_loop result (e # es) =
     (case py_index result (- 1) of
        Inl err \<Rightarrow> Inl err
      | Inr last_merged \<Rightarrow>
          (if start_time e \<le> end_time last_merged then
             (case merge_two_events last_merged e of
                Inl err \<Rightarrow> Inl err
              | Inr m \<Rightarrow> merge_loop (butlast result @ [m]) es)
           else merge_loop (result @ [e]) es))"

definition merge_overlapping_events :: "event list \<Rightarrow> error + event list" where
  "merge_overlapping_events events =
     (case plot_single_events (sort_key start_time events) of
        Inl err \<Rightarrow> Inl err
      | Inr rects \<Rightarrow>
          (case sort_key start_time events of
             [] \<Rightarrow> Inl IndexError
           | e0 # rest \<Rightarrow> merge_loop [e0] rest))"

text \<open>What the merger is to deliver: the result in the order of the start times, each
  event starting after the one before it has ended.\<close>

definition separated :: "event list \<Rightarrow> bool" where
  "separated es \<longleftrightarrow> successively (\<lambda>a b. start_time a \<le> start_time b \<and> end_time a < start_time b) es"

section \<open>Dataset assembler\<close>

text \<open>
  The rain table is its time index and its columns, one \<open>(station, vals)\<close> per gauge.
  The loop \<open>for (station, vals) in rain_df.items()\<close> runs the segmenter on every column
  with the default \<open>temporal_res = '6min'\<close> and concatenates the three results.
\<close>

fun for_stations ::
  "(string \<times> fval list) list \<Rightarrow> int list \<Rightarrow>
   radar_lookup \<Rightarrow> int \<Rightarrow> fval \<Rightarrow> seg_state \<Rightarrow>
   error + seg_state" where
  "for_stations [] datetime radar_df max_no_rain min_rain_threshold acc = Inr acc"
| "for_stations ((station, vals) # cols) datetime radar_df max_no_rain min_rain_threshold acc =
     (case select_events_single_station station vals datetime radar_df max_no_rain min_rain_threshold ''6min'' of
        Inl err \<Rightarrow> Inl err
      | Inr single \<Rightarrow>
          for_stations cols datetime radar_df max_no_rain min_rain_threshold
            (fst acc @ fst single, fst (snd acc) @ fst (snd single), snd (snd acc) @ snd (snd single)))"

text \<open>\<open>Z.reshape((len(Z) // 10, 10))\<close>: numpy raises ValueError unless the size is
  \<open>10 * (len(Z) // 10)\<close>.\<close>

definition reshape_rows :: "fval list \<Rightarrow> error + fval list list" where
  "reshape_rows Z =
     (if (length Z div 10) * 10 \<noteq> length Z then Inl ValueError
      else Inr (map (\<lambda>k. take 10 (drop (10 * k) Z)) [0..<length Z div 10]))"

text \<open>\<open>xs[mask]\<close> with a boolean mask keeps the entries at which the mask is true. The
  four filters of the assembler, in the order of the source; each computes its mask from
  the current arrays and applies it to both.\<close>

definition mask_select :: "'a list \<Rightarrow> bool list \<Rightarrow> 'a list" where
  "mask_select xs keep = map fst (filter snd (zip xs keep))"

definition drop_zero_reflect ::
  "fval list list \<times> fval list \<Rightarrow> fval list list \<times> fval list" where
  "drop_zero_reflect ZR =
     (let non_zero_mask = map (list_all (\<lambda>z. fne z (Fin 0))) (fst ZR)
      in (mask_select (fst ZR) non_zero_mask, mask_select (snd ZR) non_zero_mask))"

definition drop_nan_reflect ::
  "fval list list \<times> fval list \<Rightarrow> fval list list \<times> fval list" where
  "drop_nan_reflect ZR =
     (let non_nan_mask = map (list_all (\<lambda>z. \<not> isnan z)) (fst ZR)
      in (mask_select (fst ZR) non_nan_mask, mask_select (snd ZR) non_nan_mask))"

definition drop_zero_rain ::
  "fval list list \<times> fval list \<Rightarrow> fval list list \<times> fval list" where
  "drop_zero_rain ZR =
     (mask_select (fst ZR) (map (\<lambda>r. fne r (Fin 0)) (snd ZR)),
      mask_select (snd ZR) (map (\<lambda>r. fne r (Fin 0)) (snd ZR)))"

definition drop_nan_rain ::
  "fval list list \<times> fval list \<Rightarrow> fval list list \<times> fval list" where
  "drop_nan_rain ZR =
     (mask_select (fst ZR) (map (\<lambda>r. \<not> isnan r) (snd ZR)),
      mask_select (snd ZR) (map (\<lambda>r. \<not> isnan r) (snd ZR)))"

definition clean_pairs ::
  "fval list list \<Rightarrow> fval list \<Rightarrow> fval list list \<times> fval list" where
  "clean_pairs Z R = drop_nan_rain (drop_zero_rain (drop_nan_reflect (drop_zero_reflect (Z, R))))"

text \<open>The property of the cleaned reflectivity rows: no entry is NaN or zero.\<close>

definition rows_clean :: "fval list list \<Rightarrow> bool" where
  "rows_clean Z \<longleftrightarrow> list_all (list_all (\<lambda>z. \<not> isnan z \<and> z \<noteq> Fin 0)) Z"

text \<open>
  \<open>select_all_events\<close>: the merger runs only when there is more than one event; then
  the reshape, the comparison of the lengths (a plain \<open>Exception\<close> in the source,
  ConsistencyError here) and the four filters.
\<close>

definition select_all_events ::
  "int list \<times> (string \<times> fval list) list \<Rightarrow> radar_lookup \<Rightarrow>
   int \<Rightarrow> fval \<Rightarrow>
   error + (event list \<times> fval list list \<times> fval list)" where
  "select_all_events rain_df radar_df max_no_rain min_rain_threshold =
     (case for_stations (snd rain_df) (fst rain_df) radar_df max_no_rain min_rain_threshold ([], [], []) of
        Inl err \<Rightarrow> Inl err
      | Inr acc \<Rightarrow>
          (case (if length (fst acc) > 1 then merge_overlapping_events (fst acc) else Inr (fst acc)) of
             Inl err \<Rightarrow> Inl err
           | Inr events \<Rightarrow>
               (case reshape_rows (fst (snd acc)) of
                  Inl err \<Rightarrow> Inl err
                | Inr Z \<Rightarrow>
                    (if length Z \<noteq> length (snd (snd acc)) then Inl ConsistencyError
                     else Inr (events, clean_pairs Z (snd (snd acc)))))))"

section \<open>Facts about the segmenter\<close>

lemma for_j_gap:
  "for_j vals thr G j cand cnt = Some (j', cand', cnt') \<Longrightarrow> i + cnt < j \<Longrightarrow> int i < int j' - G"
proof (induction vals thr G j cand cnt rule: for_j.induct)
  case (1 vals thr G j cand cnt)
  show ?case
  proof (cases "j < length vals")
    case False
    with "1.prems" show ?thesis by (simp add: for_j.simps [of vals thr G j cand cnt])
  next
    case inb: True
    show ?thesis
    proof (cases "fge (vals ! j) thr")
      case True
      with inb "1.prems" have "for_j vals thr G (Suc j) (cand @ [vals ! j]) 0 = Some (j', cand', cnt')"
        by (simp add: for_j.simps [of vals thr G j cand cnt])
      moreover from "1.prems" have "i + 0 < Suc j" by simp
      ultimately show ?thesis using "1.IH"(1) inb True by blast
    next
      case below: False
      show ?thesis
      proof (cases "int (cnt + 1) > G")
        case True
        with inb below "1.prems" have "j' = j"
          by (simp add: for_j.simps [of vals thr G j cand cnt])
        with True "1.prems"(2) show ?thesis by simp
      next
        case False
        with inb below "1.prems"
        have "for_j vals thr G (Suc j) (cand @ [vals ! j]) (cnt + 1) = Some (j', cand', cnt')"
          by (simp add: for_j.simps [of vals thr G j cand cnt])
        moreover from "1.prems" have "i + (cnt + 1) < Suc j" by simp
        ultimately show ?thesis using "1.IH"(2) inb below False by blast
      qed
    qed
  qed
qed

lemma for_j_start_gap:
  assumes "fge (vals ! i) thr" and "for_j vals thr G i [] 0 = Some (j, cand, cnt)"
  shows "int i < int j - G"
proof -
  from assms(2) have inb: "i < length vals"
    by (simp add: for_j.simps [of vals thr G i "[]" 0] split: if_splits)
  with assms have "for_j vals thr G (Suc i) ([] @ [vals ! i]) 0 = Some (j, cand, cnt)"
    by (simp add: for_j.simps [of vals thr G i "[]" 0])
  then show ?thesis using for_j_gap [of vals thr G "Suc i" _ 0 j cand cnt i] by simp
qed

lemma py_index_sorted:
  assumes "sorted_wrt (<) xs" and "py_index xs a = Inr s" and "py_index xs b = Inr t"
    and "0 \<le> a" and "a < b"
  shows "s < (t::int)"
proof -
  from assms(2,4) have a: "nat a < length xs" "s = xs ! nat a"
    by (auto simp: py_index_def Let_def split: if_splits)
  from assms(3,4,5) have b: "nat b < length xs" "t = xs ! nat b"
    by (auto simp: py_index_def Let_def split: if_splits)
  from assms(4,5) have "nat a < nat b" by simp
  with assms(1) b(1) have "xs ! nat a < xs ! nat b" by (simp add: sorted_wrt_nth_less)
  with a b show ?thesis by simp
qed

lemma close_candidate_Inr:
  assumes "close_candidate station datetime radar_df G temporal_res i j cand cnt st = Inr st'"
  obtains (discard) "st' = st"
    | (emit) start_t end_t rows where
        "py_index datetime (int i) = Inr start_t"
        "py_index datetime (int j - G) = Inr end_t"
        "radar_df station start_t end_t = Inr rows"
        "\<not> isnan (fst (snd (min_avg_max (py_drop_last cand cnt))))"
        "st' = (fst st @ [Event start_t end_t [station]
                  (fst (min_avg_max (butlast rows)))
                  (fst (snd (min_avg_max (butlast rows))))
                  (snd (snd (min_avg_max (butlast rows))))
                  (fst (min_avg_max (py_drop_last cand cnt)))
                  (fst (snd (min_avg_max (py_drop_last cand cnt))))
                  (snd (snd (min_avg_max (py_drop_last cand cnt))))],
                fst (snd st) @ butlast rows,
                snd (snd st) @ py_drop_last cand cnt)"
proof -
  from assms obtain start_t where s: "py_index datetime (int i) = Inr start_t"
    by (cases "py_index datetime (int i)") (simp_all add: close_candidate_def)
  from assms s obtain end_t where e: "py_index datetime (int j - G) = Inr end_t"
    by (cases "py_index datetime (int j - G)") (simp_all add: close_candidate_def)
  from assms s e obtain rows where r: "radar_df station start_t end_t = Inr rows"
    by (cases "radar_df station start_t end_t") (simp_all add: close_candidate_def)
  show thesis
  proof (cases "isnan (fst (snd (min_avg_max (py_drop_last cand cnt))))")
    case True
    with assms s e r have "st' = st" by (simp add: close_candidate_def Let_def)
    then show thesis by (rule discard)
  next
    case False
    with assms s e r show thesis
      by (intro emit [of start_t end_t rows])
         (simp_all add: close_candidate_def Let_def split: if_splits)
  qed
qed

lemma close_candidate_events:
  assumes "close_candidate station datetime radar_df G temporal_res i j cand cnt st = Inr st'"
  shows "fst st' = fst st \<or>
    (\<exists>e. fst st' = fst st @ [e]
        \<and> py_index datetime (int i) = Inr (start_time e)
        \<and> py_index datetime (int j - G) = Inr (end_time e))"
  using assms
proof (cases rule: close_candidate_Inr)
  case discard
  then show ?thesis by simp
next
  case (emit start_t end_t rows)
  then show ?thesis by (simp add: Event_def)
qed

lemma close_candidate_mismatch:
  assumes "py_index datetime (int i) = Inr start_t"
    and "py_index datetime (int j - G) = Inr end_t"
    and "radar_df station start_t end_t = Inr rows"
    and "\<not> isnan (fst (snd (min_avg_max (py_drop_last cand cnt))))"
    and "temporal_res = ''6min'' \<and> length (butlast rows) \<noteq> 10 * length (py_drop_last cand cnt)
         \<or> (temporal_res = ''60min'' \<or> temporal_res = ''1H'')
            \<and> length (butlast rows) \<noteq> length (py_drop_last cand cnt)"
  shows "close_candidate station datetime radar_df G temporal_res i j cand cnt st = Inl ConsistencyError"
  using assms(5)
proof
  assume "temporal_res = ''6min'' \<and> length (butlast rows) \<noteq> 10 * length (py_drop_last cand cnt)"
  with assms(1-4) show ?thesis by (simp add: close_candidate_def Let_def)
next
  assume a: "(temporal_res = ''60min'' \<or> temporal_res = ''1H'')
            \<and> length (butlast rows) \<noteq> length (py_drop_last cand cnt)"
  then have "temporal_res \<noteq> ''6min''" by auto
  with a assms(1-4) show ?thesis by (simp add: close_candidate_def Let_def)
qed

lemma loop_body_Inr:
  assumes "loop_body station vals datetime radar_df G thr temporal_res i st = Inr (i', st')"
  obtains (skip) "st' = st" "i' = i + 1"
    | (close) j cand cnt where
        "fge (vals ! i) thr"
        "for_j vals thr G i [] 0 = Some (j, cand, cnt)"
        "close_candidate station datetime radar_df G temporal_res i j cand cnt st = Inr st'"
        "i' = j + 2"
proof (cases "fge (vals ! i) thr")
  case False
  with assms have "st' = st" "i' = i + 1" by (simp_all add: loop_body_def)
  then show thesis by (rule skip)
next
  case True
  show thesis
  proof (cases "for_j vals thr G i [] 0")
    case None
    with True assms have "st' = st" "i' = i + 1" by (simp_all add: loop_body_def)
    then show thesis by (rule skip)
  next
    case (Some r)
    obtain j cand cnt where r: "r = (j, cand, cnt)" by (cases r) auto
    with True Some assms
    have "close_candidate station datetime radar_df G temporal_res i j cand cnt st = Inr st'"
      and "i' = j + 2"
      by (auto simp: loop_body_def split: sum.splits)
    with True Some r show thesis by (intro close [of j cand cnt]) simp_all
  qed
qed

lemma resume_index_after_close:
  assumes "fge (vals ! i) thr" and "for_j vals thr G i [] 0 = Some (j, cand, cnt)"
    and "loop_body station vals datetime radar_df G thr temporal_res i st = Inr (i', st')"
  shows "i' = j + 2"
  using assms by (auto simp: loop_body_def split: sum.splits)

lemma while_i_invariant:
  assumes "\<And>i st i' st'. i < length vals \<Longrightarrow> P st \<Longrightarrow>
      loop_body station vals datetime radar_df G thr temporal_res i st = Inr (i', st') \<Longrightarrow> P st'"
    and "P st"
    and "while_i station vals datetime radar_df G thr temporal_res i st = Inr fin"
  shows "P fin"
  using assms
proof (induction station vals datetime radar_df G thr temporal_res i st rule: while_i.induct)
  case (1 station vals datetime radar_df G thr temporal_res i st)
  show ?case
  proof (cases "i < length vals")
    case False
    with "1.prems" show ?thesis
      by (simp add: while_i.simps [of station vals datetime radar_df G thr temporal_res i st])
  next
    case True
    with "1.prems"(3) obtain i' st' where
      body: "loop_body station vals datetime radar_df G thr temporal_res i st = Inr (i', st')"
      and rest: "while_i station vals datetime radar_df G thr temporal_res i' st' = Inr fin"
      by (auto simp: while_i.simps [of station vals datetime radar_df G thr temporal_res i st]
          split: sum.splits)
    from True "1.prems"(2) body have inv: "P st'" by (rule "1.prems"(1))
    show ?thesis
    proof (rule "1.IH" [OF True body refl])
      fix k s k' s'
      assume "k < length vals" and "P s"
        and "loop_body station vals datetime radar_df G thr temporal_res k s = Inr (k', s')"
      then show "P s'" by (rule "1.prems"(1))
    next
      show "P st'" by (rule inv)
    next
      show "while_i station vals datetime radar_df G thr temporal_res i' st' = Inr fin"
        by (rule rest)
    qed
  qed
qed

lemma scan_reaches_run:
  assumes "scan_reaches station vals datetime radar_df G thr temporal_res i st"
  shows "select_events_single_station station vals datetime radar_df G thr temporal_res
         = while_i station vals datetime radar_df G thr temporal_res i st"
  using assms
proof (induction rule: scan_reaches.induct)
  case start
  show ?case by (simp add: select_events_single_station_def)
next
  case (step i st i' st')
  from step.hyps(2,3)
  have "while_i station vals datetime radar_df G thr temporal_res i st
        = while_i station vals datetime radar_df G thr temporal_res i' st'"
    by (simp add: while_i.simps [of station vals datetime radar_df G thr temporal_res i st])
  with step.IH show ?case by simp
qed

lemma fsum_Fin: "fsum vs = Fin s \<Longrightarrow> \<exists>rs. vs = map Fin rs \<and> s = sum_list rs"
proof (induction vs arbitrary: s)
  case Nil
  then show ?case by simp
next
  case (Cons v vs)
  from Cons.prems obtain x t where v: "v = Fin x" and t: "fsum vs = Fin t" and s: "s = x + t"
    by (cases v; cases "fsum vs") auto
  from Cons.IH [OF t] obtain rs where "vs = map Fin rs" "t = sum_list rs" by blast
  with v s have "v # vs = map Fin (x # rs) \<and> s = sum_list (x # rs)" by simp
  then show ?case by (rule exI)
qed

lemma py_min_Fin:
  "\<exists>lo. py_min (Fin m) (map Fin rs) = Fin lo \<and> lo \<le> m \<and> (\<forall>r \<in> set rs. lo \<le> r)"
proof (induction rs arbitrary: m)
  case Nil
  show ?case by simp
next
  case (Cons r rs)
  from Cons.IH [of "if r < m then r else m"]
  obtain lo where "py_min (Fin (if r < m then r else m)) (map Fin rs) = Fin lo"
    "lo \<le> (if r < m then r else m)" "\<forall>r \<in> set rs. lo \<le> r" by blast
  then show ?case by (auto simp: py_min2_def split: if_splits)
qed

lemma py_max_Fin:
  "\<exists>hi. py_max (Fin m) (map Fin rs) = Fin hi \<and> m \<le> hi \<and> (\<forall>r \<in> set rs. r \<le> hi)"
proof (induction rs arbitrary: m)
  case Nil
  show ?case by simp
next
  case (Cons r rs)
  from Cons.IH [of "if m < r then r else m"]
  obtain hi where "py_max (Fin (if m < r then r else m)) (map Fin rs) = Fin hi"
    "(if m < r then r else m) \<le> hi" "\<forall>r \<in> set rs. r \<le> hi" by blast
  then show ?case by (auto simp: py_max2_def split: if_splits)
qed

lemma sum_list_lower: "\<forall>r \<in> set rs. lo \<le> r \<Longrightarrow> real (length rs) * lo \<le> sum_list rs"
  by (induction rs) (auto simp: algebra_simps)

lemma sum_list_upper: "\<forall>r \<in> set rs. r \<le> hi \<Longrightarrow> sum_list rs \<le> real (length rs) * hi"
  by (induction rs) (auto simp: algebra_simps)

lemma min_avg_max_ordered:
  assumes "\<not> isnan (fst (snd (min_avg_max vs)))"
  shows "fle (fst (min_avg_max vs)) (fst (snd (min_avg_max vs)))
         \<and> fle (fst (snd (min_avg_max vs))) (snd (snd (min_avg_max vs)))"
proof (cases vs)
  case Nil
  with assms show ?thesis by (simp add: min_avg_max_def)
next
  case (Cons v vs')
  with assms obtain s where s: "fsum (v # vs') = Fin s"
    by (cases "fsum (v # vs')") (simp_all add: min_avg_max_def mean_def)
  from fsum_Fin [OF s] obtain rs where rs: "v # vs' = map Fin rs" "s = sum_list rs"
    by (elim exE conjE)
  then obtain x rs' where xs: "rs = x # rs'" "v = Fin x" "vs' = map Fin rs'" by (cases rs) auto
  from py_min_Fin [of x rs'] obtain lo where lo: "py_min (Fin x) (map Fin rs') = Fin lo"
    "lo \<le> x" "\<forall>r \<in> set rs'. lo \<le> r" by blast
  from py_max_Fin [of x rs'] obtain hi where hi: "py_max (Fin x) (map Fin rs') = Fin hi"
    "x \<le> hi" "\<forall>r \<in> set rs'. r \<le> hi" by blast
  let ?n = "real (length rs)"
  have n: "0 < ?n" using xs(1) by simp
  from lo(2,3) xs(1) have "\<forall>r \<in> set rs. lo \<le> r" by simp
  then have "?n * lo \<le> s" unfolding rs(2) by (rule sum_list_lower)
  with n have l: "lo \<le> s / ?n" by (simp add: pos_le_divide_eq mult.commute)
  from hi(2,3) xs(1) have "\<forall>r \<in> set rs. r \<le> hi" by simp
  then have "s \<le> ?n * hi" unfolding rs(2) by (rule sum_list_upper)
  with n have h: "s / ?n \<le> hi" by (simp add: pos_divide_le_eq mult.commute)
  have len: "length (v # vs') = length rs" using rs(1) by (metis length_map)
  from Cons s lo(1) hi(1) xs(2,3) len l h show ?thesis
    by (simp add: min_avg_max_def mean_def)
qed

lemma close_candidate_ordered:
  assumes "close_candidate station datetime radar_df G temporal_res i j cand cnt st = Inr st'"
    and "e \<in> set (fst st')" and "e \<notin> set (fst st)"
  shows "fle (rain_intens_min e) (rain_intens_avg e) \<and> fle (rain_intens_avg e) (rain_intens_max e)
         \<and> (isnan (reflect_avg e) \<or>
              fle (reflect_min e) (reflect_avg e) \<and> fle (reflect_avg e) (reflect_max e))"
  using assms(1)
proof (cases rule: close_candidate_Inr)
  case discard
  with assms(2,3) show ?thesis by simp
next
  case (emit start_t end_t rows)
  let ?rain = "py_drop_last cand cnt"
  let ?refl = "butlast rows"
  from emit(5) assms(2,3)
  have e: "e = Event start_t end_t [station]
                  (fst (min_avg_max ?refl)) (fst (snd (min_avg_max ?refl))) (snd (snd (min_avg_max ?refl)))
                  (fst (min_avg_max ?rain)) (fst (snd (min_avg_max ?rain))) (snd (snd (min_avg_max ?rain)))"
    by auto
  from emit(4) have rain: "fle (fst (min_avg_max ?rain)) (fst (snd (min_avg_max ?rain)))
         \<and> fle (fst (snd (min_avg_max ?rain))) (snd (snd (min_avg_max ?rain)))"
    by (rule min_avg_max_ordered)
  have refl: "isnan (fst (snd (min_avg_max ?refl))) \<or>
      fle (fst (min_avg_max ?refl)) (fst (snd (min_avg_max ?refl)))
         \<and> fle (fst (snd (min_avg_max ?refl))) (snd (snd (min_avg_max ?refl)))"
    using min_avg_max_ordered [of ?refl] by blast
  from rain refl show ?thesis unfolding e by (simp add: Event_def)
qed

lemma segmenter_events_ordered:
  assumes run: "select_events_single_station station vals datetime radar_df G thr temporal_res = Inr (events, Z, R)"
    and mem: "e \<in> set events"
  shows "fle (rain_intens_min e) (rain_intens_avg e) \<and> fle (rain_intens_avg e) (rain_intens_max e)
         \<and> (isnan (reflect_avg e) \<or>
              fle (reflect_min e) (reflect_avg e) \<and> fle (reflect_avg e) (reflect_max e))"
proof -
  let ?Q = "\<lambda>e. fle (rain_intens_min e) (rain_intens_avg e) \<and> fle (rain_intens_avg e) (rain_intens_max e)
         \<and> (isnan (reflect_avg e) \<or>
              fle (reflect_min e) (reflect_avg e) \<and> fle (reflect_avg e) (reflect_max e))"
  let ?P = "\<lambda>st :: seg_state. \<forall>e \<in> set (fst st). ?Q e"
  have step: "?P st'"
    if "i < length vals" and inv: "?P st"
      and body: "loop_body station vals datetime radar_df G thr temporal_res i st = Inr (i', st')"
    for i st i' st'
    using body
  proof (cases rule: loop_body_Inr)
    case skip
    with inv show ?thesis by simp
  next
    case (close j cand cnt)
    show ?thesis
    proof
      fix e assume e: "e \<in> set (fst st')"
      show "?Q e"
      proof (cases "e \<in> set (fst st)")
        case True
        with inv show ?thesis by blast
      next
        case False
        with close(3) e show ?thesis by (rule close_candidate_ordered)
      qed
    qed
  qed
  have "?P ([], [], [])" by simp
  with step have "?P (events, Z, R)"
    using run unfolding select_events_single_station_def
    by (rule while_i_invariant [where P = ?P])
  with mem show ?thesis by simp
qed

lemma segmenter_rain_never_nan:
  assumes "select_events_single_station station vals datetime radar_df G thr temporal_res = Inr (events, Z, R)"
    and "e \<in> set events"
  shows "\<not> isnan (rain_intens_min e) \<and> \<not> isnan (rain_intens_avg e) \<and> \<not> isnan (rain_intens_max e)"
proof -
  from segmenter_events_ordered [OF assms]
  have "fle (rain_intens_min e) (rain_intens_avg e)" "fle (rain_intens_avg e) (rain_intens_max e)"
    by simp_all
  then show ?thesis
    by (cases "rain_intens_min e"; cases "rain_intens_avg e"; cases "rain_intens_max e") simp_all
qed

section \<open>Facts about the merger\<close>

lemma py_index_Inl: "py_index xs k = Inl err \<Longrightarrow> err = IndexError"
  by (simp add: py_index_def Let_def split: if_splits)

lemma plot_rectangles_IndexError:
  "\<exists>i \<in> set ixs. length events \<le> i \<Longrightarrow> plot_rectangles events ixs = Inl IndexError"
proof (induction ixs)
  case Nil
  then show ?case by simp
next
  case (Cons i ixs)
  show ?case
  proof (cases "length events \<le> i")
    case True
    then have "py_index events (int i) = Inl IndexError" by (simp add: py_index_def)
    then show ?thesis by simp
  next
    case False
    with Cons.prems have "\<exists>i \<in> set ixs. length events \<le> i" by auto
    then have "plot_rectangles events ixs = Inl IndexError" by (rule Cons.IH)
    then show ?thesis by (auto split: sum.splits dest: py_index_Inl)
  qed
qed

lemma plot_rectangles_Inr:
  "\<forall>i \<in> set ixs. i < length events \<Longrightarrow> \<exists>rects. plot_rectangles events ixs = Inr rects"
proof (induction ixs)
  case Nil
  show ?case by simp
next
  case (Cons i ixs)
  then obtain rects where "plot_rectangles events ixs = Inr rects" by auto
  moreover from Cons.prems have "py_index events (int i) = Inr (events ! i)"
    by (simp add: py_index_def)
  ultimately show ?case by simp
qed

lemma merge_overlapping_events_100:
  assumes "100 \<le> length events"
  shows "merge_overlapping_events events
         = merge_loop [hd (sort_key start_time events)] (tl (sort_key start_time events))"
proof -
  from assms have "\<forall>i \<in> set [0..<100]. i < length (sort_key start_time events)" by simp
  then obtain rects where "plot_single_events (sort_key start_time events) = Inr rects"
    unfolding plot_single_events_def using plot_rectangles_Inr by blast
  moreover have "length (sort_key start_time events) = length events" by simp
  with assms have "sort_key start_time events \<noteq> []"
    by (cases "sort_key start_time events") simp_all
  ultimately show ?thesis
    by (cases "sort_key start_time events") (simp_all add: merge_overlapping_events_def)
qed





lemma merge_two_events_times:
  assumes "merge_two_events e1 e2 = Inr m"
  shows "start_time m = min (start_time e1) (start_time e2)"
    and "end_time m = max (end_time e1) (end_time e2)"
  using assms by (auto simp: merge_two_events_def Event_def split: sum.splits)

lemma separated_snoc:
  "separated (xs @ [x]) \<longleftrightarrow>
     separated xs \<and> (xs = [] \<or> (start_time (last xs) \<le> start_time x \<and> end_time (last xs) < start_time x))"
  unfolding separated_def by (simp add: successively_append_iff)

lemma merge_loop_separated:
  assumes "merge_loop result es = Inr out"
    and "result \<noteq> []" and "separated result"
    and "sorted (map start_time es)"
    and "\<forall>e \<in> set es. start_time (last result) \<le> start_time e"
  shows "separated out"
  using assms
proof (induction es arbitrary: result)
  case Nil
  then show ?case by simp
next
  case (Cons e es)
  from Cons.prems(2) have idx: "py_index result (- 1) = Inr (last result)"
    by (cases result rule: rev_cases) (simp_all add: py_index_def Let_def nth_append)
  from Cons.prems(5) have le: "start_time (last result) \<le> start_time e" by simp
  from Cons.prems(4) have srt: "sorted (map start_time es)" "\<forall>x \<in> set es. start_time e \<le> start_time x"
    by simp_all
  show ?case
  proof (cases "start_time e \<le> end_time (last result)")
    case True
    with Cons.prems(1) idx obtain m where m: "merge_two_events (last result) e = Inr m"
      and rest: "merge_loop (butlast result @ [m]) es = Inr out"
      by (auto split: sum.splits)
    from merge_two_events_times [OF m] le have st: "start_time m = start_time (last result)"
      by simp
    from Cons.prems(2) obtain pre where pre: "result = pre @ [last result]"
      by (metis append_butlast_last_id)
    from Cons.prems(3) pre have "separated (pre @ [last result])" by simp
    then have "separated (pre @ [m])" using st by (simp add: separated_snoc)
    moreover from pre have "butlast result = pre" by (metis butlast_snoc)
    ultimately have sep: "separated (butlast result @ [m])" by simp
    have "\<forall>x \<in> set es. start_time (last (butlast result @ [m])) \<le> start_time x"
      using st le srt(2) by auto
    with Cons.IH [OF rest _ sep srt(1)] show ?thesis by simp
  next
    case False
    with Cons.prems(1) idx have rest: "merge_loop (result @ [e]) es = Inr out" by simp
    from False le Cons.prems(2,3) have sep: "separated (result @ [e])"
      by (simp add: separated_snoc)
    have "\<forall>x \<in> set es. start_time (last (result @ [e])) \<le> start_time x"
      using srt(2) by simp
    with Cons.IH [OF rest _ sep srt(1)] show ?thesis by simp
  qed
qed

lemma merged_events_separated:
  assumes "merge_overlapping_events events = Inr out"
  shows "separated out"
proof -
  have big: "100 \<le> length events"
  proof (rule ccontr)
    assume "\<not> 100 \<le> length events"
    then have "\<exists>i \<in> set [0..<100]. length (sort_key start_time events) \<le> i"
      by (intro bexI [of _ "length events"]) simp_all
    then have "plot_single_events (sort_key start_time events) = Inl IndexError"
      unfolding plot_single_events_def by (rule plot_rectangles_IndexError)
    with assms show False by (simp add: merge_overlapping_events_def)
  qed
  let ?s = "sort_key start_time events"
  have "length ?s = length events" by simp
  with big obtain e0 rest where s: "?s = e0 # rest" by (cases ?s) simp_all
  have "sorted (map start_time ?s)" by (rule sorted_sort_key)
  with s have srt: "sorted (map start_time rest)" "\<forall>e \<in> set rest. start_time e0 \<le> start_time e"
    by simp_all
  from merge_overlapping_events_100 [OF big] assms s have "merge_loop [e0] rest = Inr out" by simp
  then show ?thesis
    by (rule merge_loop_separated) (use srt in \<open>simp_all add: separated_def\<close>)
qed

section \<open>Facts about the assembler\<close>

lemma mask_select_self: "mask_select xs (map P xs) = filter P xs"
  by (induction xs) (simp_all add: mask_select_def)

lemma set_mask_select: "set (mask_select xs keep) \<subseteq> set xs"
  unfolding mask_select_def by (auto dest: set_zip_leftD)

lemma length_mask_select:
  "length xs = length keep \<Longrightarrow> length (mask_select xs keep) = length (filter id keep)"
proof (induction xs keep rule: list_induct2)
  case Nil
  show ?case by (simp add: mask_select_def)
next
  case (Cons x xs b bs)
  then show ?case by (simp add: mask_select_def)
qed

lemma length_mask_select_eq:
  assumes "length xs = length keep" and "length ys = length keep"
  shows "length (mask_select xs keep) = length (mask_select ys keep)"
  using assms by (simp add: length_mask_select)

lemma fne_zero: "fne z (Fin 0) \<Longrightarrow> z \<noteq> Fin 0"
  by auto

lemma drop_zero_reflect_props:
  assumes "length (fst ZR) = length (snd ZR)"
  shows "length (fst (drop_zero_reflect ZR)) = length (snd (drop_zero_reflect ZR))"
    and "list_all (list_all (\<lambda>z. fne z (Fin 0))) (fst (drop_zero_reflect ZR))"
proof -
  show "length (fst (drop_zero_reflect ZR)) = length (snd (drop_zero_reflect ZR))"
    using assms by (simp add: drop_zero_reflect_def Let_def length_mask_select)
  show "list_all (list_all (\<lambda>z. fne z (Fin 0))) (fst (drop_zero_reflect ZR))"
    by (simp add: drop_zero_reflect_def Let_def mask_select_self list_all_iff)
qed

lemma drop_nan_reflect_props:
  assumes "length (fst ZR) = length (snd ZR)"
    and "list_all (list_all (\<lambda>z. fne z (Fin 0))) (fst ZR)"
  shows "length (fst (drop_nan_reflect ZR)) = length (snd (drop_nan_reflect ZR))"
    and "rows_clean (fst (drop_nan_reflect ZR))"
proof -
  show "length (fst (drop_nan_reflect ZR)) = length (snd (drop_nan_reflect ZR))"
    using assms(1) by (simp add: drop_nan_reflect_def Let_def length_mask_select)
  have "fst (drop_nan_reflect ZR) = filter (list_all (\<lambda>z. \<not> isnan z)) (fst ZR)"
    by (simp add: drop_nan_reflect_def Let_def mask_select_self)
  with assms(2) show "rows_clean (fst (drop_nan_reflect ZR))"
    by (auto simp: rows_clean_def list_all_iff dest: fne_zero)
qed

lemma drop_zero_rain_props:
  assumes "length (fst ZR) = length (snd ZR)" and "rows_clean (fst ZR)"
  shows "length (fst (drop_zero_rain ZR)) = length (snd (drop_zero_rain ZR))"
    and "rows_clean (fst (drop_zero_rain ZR))"
    and "list_all (\<lambda>r. fne r (Fin 0)) (snd (drop_zero_rain ZR))"
proof -
  show "length (fst (drop_zero_rain ZR)) = length (snd (drop_zero_rain ZR))"
    using assms(1) by (simp add: drop_zero_rain_def length_mask_select)
  have "set (fst (drop_zero_rain ZR)) \<subseteq> set (fst ZR)"
    by (simp add: drop_zero_rain_def set_mask_select)
  with assms(2) show "rows_clean (fst (drop_zero_rain ZR))"
    by (auto simp: rows_clean_def list_all_iff)
  show "list_all (\<lambda>r. fne r (Fin 0)) (snd (drop_zero_rain ZR))"
    by (simp add: drop_zero_rain_def mask_select_self list_all_iff)
qed

lemma drop_nan_rain_props:
  assumes "length (fst ZR) = length (snd ZR)" and "rows_clean (fst ZR)"
    and "list_all (\<lambda>r. fne r (Fin 0)) (snd ZR)"
  shows "length (fst (drop_nan_rain ZR)) = length (snd (drop_nan_rain ZR))"
    and "rows_clean (fst (drop_nan_rain ZR))"
    and "list_all (\<lambda>r. \<not> isnan r \<and> r \<noteq> Fin 0) (snd (drop_nan_rain ZR))"
proof -
  show "length (fst (drop_nan_rain ZR)) = length (snd (drop_nan_rain ZR))"
    using assms(1) by (simp add: drop_nan_rain_def length_mask_select)
  have "set (fst (drop_nan_rain ZR)) \<subseteq> set (fst ZR)"
    by (simp add: drop_nan_rain_def set_mask_select)
  with assms(2) show "rows_clean (fst (drop_nan_rain ZR))"
    by (auto simp: rows_clean_def list_all_iff)
  have "snd (drop_nan_rain ZR) = filter (\<lambda>r. \<not> isnan r) (snd ZR)"
    by (simp add: drop_nan_rain_def mask_select_self)
  with assms(3) show "list_all (\<lambda>r. \<not> isnan r \<and> r \<noteq> Fin 0) (snd (drop_nan_rain ZR))"
    by (auto simp: list_all_iff dest: fne_zero)
qed

lemma clean_pairs_clean:
  assumes "length Z = length R" and "clean_pairs Z R = (Z', R')"
  shows "length Z' = length R'
         \<and> (\<forall>row \<in> set Z'. \<forall>z \<in> set row. \<not> isnan z \<and> z \<noteq> Fin 0)
         \<and> (\<forall>r \<in> set R'. \<not> isnan r \<and> r \<noteq> Fin 0)"
proof -
  let ?s1 = "drop_zero_reflect (Z, R)"
  let ?s2 = "drop_nan_reflect ?s1"
  let ?s3 = "drop_zero_rain ?s2"
  let ?s4 = "drop_nan_rain ?s3"
  from assms(1) have l0: "length (fst (Z, R)) = length (snd (Z, R))" by simp
  note p1 = drop_zero_reflect_props [OF l0]
  note p2 = drop_nan_reflect_props [OF p1]
  note p3 = drop_zero_rain_props [OF p2]
  note p4 = drop_nan_rain_props [OF p3]
  from assms(2) have "?s4 = (Z', R')" by (simp add: clean_pairs_def)
  with p4 have "length Z' = length R'" "rows_clean Z'"
    "list_all (\<lambda>r. \<not> isnan r \<and> r \<noteq> Fin 0) R'"
    by simp_all
  then show ?thesis by (simp add: rows_clean_def list_all_iff)
qed

lemma length_reshape_rows: "reshape_rows Z = Inr rows \<Longrightarrow> length rows = length Z div 10"
  by (auto simp: reshape_rows_def split: if_splits)

section \<open>Resuming the scan after a closed event\<close>

text \<open>
  A gauge series with two one-hour showers, at indices 0 and 2, each followed by a dry
  hour; hourly timestamps; a radar column with one row every six minutes.
\<close>

definition two_showers :: "fval list" where
  "two_showers = [Fin 0.2, Fin 0, Fin 0.5, Fin 0]"

definition four_hours :: "int list" where
  "four_hours = [0, 3600, 7200, 10800]"

definition radar_6min :: "(string \<times> (int \<times> fval) list) list" where
  "radar_6min = [(''A'', map (\<lambda>k. (360 * int k, Fin 1)) [0..<31])]"

lemmas run_simps =
  select_events_single_station_def while_i.simps loop_body_def for_j.simps
  close_candidate_def py_index_def py_drop_last_def loc_values_def min_avg_max_def mean_def
  py_min2_def py_max2_def upt_rec numeral_eq_Suc

text \<open>
  C1. With gap tolerance 0 the first candidate is closed at inner index \<open>j = 1\<close>. The
  pass through the loop body that closes it hands back \<open>i = 3 = j + 2\<close>: the body sets
  \<open>i = j + 1\<close> and then runs \<open>i += 1\<close>. Index \<open>j + 1 = 2\<close> holds a value above the
  threshold whose own candidate would close at index 3, yet it is never examined, and
  the run returns the first shower as its only event.
\<close>

theorem resume_skips_index_after_gap:
  "for_j two_showers (Fin 0.1) 0 0 [] 0 = Some (1, [Fin 0.2, Fin 0], 1)
   \<and> loop_body ''A'' two_showers four_hours (loc_values radar_6min) 0 (Fin 0.1) ''6min'' 0 ([], [], [])
       = Inr (3, [Event 0 3600 [''A''] (Fin 1) (Fin 1) (Fin 1) (Fin 0.2) (Fin 0.2) (Fin 0.2)],
                 replicate 10 (Fin 1), [Fin 0.2])
   \<and> fge (two_showers ! 2) (Fin 0.1)
   \<and> for_j two_showers (Fin 0.1) 0 2 [] 0 = Some (3, [Fin 0.5, Fin 0], 1)
   \<and> select_events_single_station ''A'' two_showers four_hours (loc_values radar_6min) 0 (Fin 0.1) ''6min''
       = Inr ([Event 0 3600 [''A''] (Fin 1) (Fin 1) (Fin 1) (Fin 0.2) (Fin 0.2) (Fin 0.2)],
              replicate 10 (Fin 1), [Fin 0.2])"
  by (simp add: run_simps two_showers_def four_hours_def radar_6min_def)

text \<open>
  The scenario of the specification, gap tolerance 2: the candidate started at index 1 is
  closed at \<open>j = 5\<close> and the scan resumes at index 7. The value 0.5 at index 6 is never
  examined; the result is the one event all the same, because the series ends before a
  candidate started there could close.
\<close>

definition spec_scenario :: "fval list" where
  "spec_scenario = [Fin 0, Fin 0.2, Fin 0.3, Fin 0, Fin 0, Fin 0, Fin 0.5, Fin 0]"

definition eight_hours :: "int list" where
  "eight_hours = [0, 3600, 7200, 10800, 14400, 18000, 21600, 25200]"

definition radar_6min_8h :: "(string \<times> (int \<times> fval) list) list" where
  "radar_6min_8h = [(''A'', map (\<lambda>k. (360 * int k, Fin 1)) [0..<71])]"

lemma spec_scenario_skips_index_6:
  "for_j spec_scenario (Fin 0.1) 2 1 [] 0
     = Some (5, [Fin 0.2, Fin 0.3, Fin 0, Fin 0, Fin 0], 3)
   \<and> loop_body ''A'' spec_scenario eight_hours (loc_values radar_6min_8h) 2 (Fin 0.1) ''6min'' 1 ([], [], [])
       = Inr (7, [Event 3600 10800 [''A''] (Fin 1) (Fin 1) (Fin 1) (Fin 0.2) (Fin (1 / 4)) (Fin 0.3)],
                 replicate 20 (Fin 1), [Fin 0.2, Fin 0.3])
   \<and> select_events_single_station ''A'' spec_scenario eight_hours (loc_values radar_6min_8h) 2 (Fin 0.1) ''6min''
       = Inr ([Event 3600 10800 [''A''] (Fin 1) (Fin 1) (Fin 1) (Fin 0.2) (Fin (1 / 4)) (Fin 0.3)],
              replicate 20 (Fin 1), [Fin 0.2, Fin 0.3])"
  by (simp add: run_simps spec_scenario_def eight_hours_def radar_6min_8h_def)

section \<open>The closing index\<close>

definition showers_gap1 :: "fval list" where
  "showers_gap1 = [Fin 0.2, Fin 0, Fin 0.3, Fin 0, Fin 0]"

definition five_hours :: "int list" where
  "five_hours = [0, 3600, 7200, 10800, 14400]"

definition radar_hourly :: "(string \<times> (int \<times> fval) list) list" where
  "radar_hourly = [(''A'', [(0, Fin 4), (3600, Fin 2), (7200, Fin 6), (10800, Fin 1), (14400, Fin 1)])]"

text \<open>
  C6. Every event the segmenter returns was closed at some inner index \<open>j\<close> of a
  candidate started at \<open>i\<close> (a value at or above the threshold), with
  \<open>start_time = datetime[i]\<close> and \<open>end_time = datetime[j - max_no_rain]\<close>, and the index
  \<open>j - max_no_rain\<close> lies strictly after \<open>i\<close>. With strictly increasing timestamps the
  event therefore ends after it starts.
\<close>

theorem emitted_event_ends_after_start:
  assumes run: "select_events_single_station station vals datetime radar_df G thr temporal_res = Inr (events, Z, R)"
    and mem: "e \<in> set events"
  shows "(\<exists>i j cand cnt. fge (vals ! i) thr \<and> for_j vals thr G i [] 0 = Some (j, cand, cnt)
            \<and> int i < int j - G
            \<and> py_index datetime (int i) = Inr (start_time e)
            \<and> py_index datetime (int j - G) = Inr (end_time e))
         \<and> (sorted_wrt (<) datetime \<longrightarrow> start_time e < end_time e)"
proof -
  let ?Q = "\<lambda>e. \<exists>i j cand cnt. fge (vals ! i) thr \<and> for_j vals thr G i [] 0 = Some (j, cand, cnt)
            \<and> int i < int j - G
            \<and> py_index datetime (int i) = Inr (start_time e)
            \<and> py_index datetime (int j - G) = Inr (end_time e)"
  let ?P = "\<lambda>st :: seg_state. \<forall>e \<in> set (fst st). ?Q e"
  have step: "?P st'"
    if "i < length vals" and inv: "?P st"
      and body: "loop_body station vals datetime radar_df G thr temporal_res i st = Inr (i', st')"
    for i st i' st'
    using body
  proof (cases rule: loop_body_Inr)
    case skip
    with inv show ?thesis by simp
  next
    case (close j cand cnt)
    from close(1,2) have gap: "int i < int j - G" by (rule for_j_start_gap)
    from close(3) have "fst st' = fst st \<or>
      (\<exists>e. fst st' = fst st @ [e]
        \<and> py_index datetime (int i) = Inr (start_time e)
        \<and> py_index datetime (int j - G) = Inr (end_time e))"
      by (rule close_candidate_events)
    then show ?thesis
    proof
      assume "fst st' = fst st"
      with inv show ?thesis by simp
    next
      assume "\<exists>e. fst st' = fst st @ [e]
        \<and> py_index datetime (int i) = Inr (start_time e)
        \<and> py_index datetime (int j - G) = Inr (end_time e)"
      then obtain e where e: "fst st' = fst st @ [e]"
        "py_index datetime (int i) = Inr (start_time e)"
        "py_index datetime (int j - G) = Inr (end_time e)" by blast
      from close(1,2) gap e(2,3) have "?Q e" by blast
      with inv e(1) show ?thesis by auto
    qed
  qed
  have "?P ([], [], [])" by simp
  with step have "?P (events, Z, R)"
    using run unfolding select_events_single_station_def
    by (rule while_i_invariant [where P = ?P])
  with mem have q: "?Q e" by simp
  then obtain i j where "int i < int j - G"
    "py_index datetime (int i) = Inr (start_time e)"
    "py_index datetime (int j - G) = Inr (end_time e)" by blast
  then have "sorted_wrt (<) datetime \<longrightarrow> start_time e < end_time e"
    using py_index_sorted [of datetime "int i" "start_time e" "int j - G" "end_time e"] by simp
  with q show ?thesis by blast
qed

theorem emitted_event_ends_after_start_witness:
  "select_events_single_station ''A'' showers_gap1 five_hours (loc_values radar_hourly) 1 (Fin 0.1) ''60min''
     = Inr ([Event 0 10800 [''A''] (Fin 2) (Fin 4) (Fin 6) (Fin 0) (Fin (1 / 6)) (Fin 0.3)],
            [Fin 4, Fin 2, Fin 6], [Fin 0.2, Fin 0, Fin 0.3])
   \<and> sorted_wrt (<) five_hours
   \<and> start_time (Event 0 10800 [''A''] (Fin 2) (Fin 4) (Fin 6) (Fin 0) (Fin (1 / 6)) (Fin 0.3))
       < end_time (Event 0 10800 [''A''] (Fin 2) (Fin 4) (Fin 6) (Fin 0) (Fin (1 / 6)) (Fin 0.3))"
proof -
  have run: "select_events_single_station ''A'' showers_gap1 five_hours (loc_values radar_hourly) 1 (Fin 0.1) ''60min''
     = Inr ([Event 0 10800 [''A''] (Fin 2) (Fin 4) (Fin 6) (Fin 0) (Fin (1 / 6)) (Fin 0.3)],
            [Fin 4, Fin 2, Fin 6], [Fin 0.2, Fin 0, Fin 0.3])"
    by (simp add: run_simps showers_gap1_def five_hours_def radar_hourly_def)
  have srt: "sorted_wrt (<) five_hours" by (simp add: five_hours_def)
  from emitted_event_ends_after_start [OF run, of "Event 0 10800 [''A''] (Fin 2) (Fin 4) (Fin 6) (Fin 0) (Fin (1 / 6)) (Fin 0.3)"] srt
  have "start_time (Event 0 10800 [''A''] (Fin 2) (Fin 4) (Fin 6) (Fin 0) (Fin (1 / 6)) (Fin 0.3))
       < end_time (Event 0 10800 [''A''] (Fin 2) (Fin 4) (Fin 6) (Fin 0) (Fin (1 / 6)) (Fin 0.3))"
    by simp
  with run srt show ?thesis by blast
qed

section \<open>The merger and the plot of the first 100 events\<close>

text \<open>Two overlapping two-hour events at different stations.\<close>

definition ev_morning :: event where
  "ev_morning = Event 0 7200 [''A''] (Fin 10) (Fin 20) (Fin 40) (Fin 1) (Fin 2) (Fin 4)"

definition ev_noon :: event where
  "ev_noon = Event 3600 10800 [''B''] (Fin 5) (Fin 30) (Fin 50) (Fin 2) (Fin 3) (Fin 6)"

text \<open>
  C10. \<open>merge_overlapping_events\<close> plots before it merges, and the plot reads
  \<open>events[0]\<close> to \<open>events[99]\<close>. With fewer than 100 events the read at index
  \<open>len(events)\<close> raises IndexError, so the merger returns no result.
\<close>

theorem merge_fails_below_100_events:
  assumes "length events < 100"
  shows "merge_overlapping_events events = Inl IndexError
         \<and> (\<forall>result. merge_overlapping_events events \<noteq> Inr result)"
proof -
  from assms have "\<exists>i \<in> set [0..<100]. length (sort_key start_time events) \<le> i"
    by (intro bexI [of _ "length events"]) simp_all
  then have "plot_single_events (sort_key start_time events) = Inl IndexError"
    unfolding plot_single_events_def by (rule plot_rectangles_IndexError)
  then show ?thesis by (simp add: merge_overlapping_events_def)
qed

theorem merge_fails_below_100_events_witness:
  "length [ev_morning, ev_noon] < 100
   \<and> merge_overlapping_events [ev_morning, ev_noon] = Inl IndexError"
  using merge_fails_below_100_events [of "[ev_morning, ev_noon]"] by simp

text \<open>
  C2. Two overlapping events, given in the wrong order. The sort puts them in order and
  the merge loop on the sorted list would collapse them into one event, but the plot
  raises IndexError at \<open>events[2]\<close> first, so no list is returned. (When the merger
  does return, its result is in the order of the start times and its events do not
  overlap: \<open>merged_events_separated\<close>.)
\<close>

theorem merge_two_sorted_events_raises:
  "merge_overlapping_events [ev_noon, ev_morning] = Inl IndexError
   \<and> sort_key start_time [ev_noon, ev_morning] = [ev_morning, ev_noon]
   \<and> py_index [ev_morning, ev_noon] 2 = Inl IndexError
   \<and> merge_loop [ev_morning] [ev_noon]
       = Inr [Event 0 10800 [''A'', ''B''] (Fin 5) (Fin 25) (Fin 50) (Fin 1) (Fin (5 / 2)) (Fin 6)]"
  by (simp add: merge_overlapping_events_def plot_single_events_def upt_rec numeral_eq_Suc
      py_index_def ev_morning_def ev_noon_def Event_def merge_two_events_def py_min2_def py_max2_def)

section \<open>Merging two events of equal duration\<close>






section \<open>The sampling check\<close>

text \<open>The series of C6 with a missing gauge value inside the shower.\<close>

definition showers_nan :: "fval list" where
  "showers_nan = [Fin 0.2, NaN, Fin 0.3, Fin 0, Fin 0]"

text \<open>
  C3, as stated, fails for a closed candidate that is discarded. Here the gap is detected
  at \<open>j = 4\<close>; the rain samples \<open>[0.2, nan, 0.3]\<close> have a NaN average, so the candidate
  is dropped before the sampling check is reached. The reflectivity segment has 3 values
  where the 6-minute mode wants 30, and the run still returns normally.
\<close>

theorem mismatch_unchecked_for_discarded_candidate:
  "for_j showers_nan (Fin 0.1) 1 0 [] 0 = Some (4, [Fin 0.2, NaN, Fin 0.3, Fin 0, Fin 0], 2)
   \<and> py_index five_hours 0 = Inr 0
   \<and> py_index five_hours (4 - 1) = Inr 10800
   \<and> loc_values radar_hourly ''A'' 0 10800 = Inr [Fin 4, Fin 2, Fin 6, Fin 1]
   \<and> length (butlast [Fin 4, Fin 2, Fin 6, Fin 1])
        \<noteq> 10 * length (py_drop_last [Fin 0.2, NaN, Fin 0.3, Fin 0, Fin 0] 2)
   \<and> select_events_single_station ''A'' showers_nan five_hours (loc_values radar_hourly) 1 (Fin 0.1) ''6min''
       = Inr ([], [], [])"
  by (simp add: run_simps showers_nan_def five_hours_def radar_hourly_def)

text \<open>
  C3, amended. Whenever a run reaches the start of a candidate that is then closed, with
  a rain average that is not NaN and a reflectivity segment whose length is not 10 times
  (mode \<open>6min\<close>) or 1 times (modes \<open>60min\<close>, \<open>1H\<close>) the number of rain samples, the whole
  run fails with ConsistencyError and returns no events or samples.
\<close>

theorem mismatch_fails_run:
  assumes reach: "scan_reaches station vals datetime radar_df G thr temporal_res i st"
    and above: "fge (vals ! i) thr"
    and gap: "for_j vals thr G i [] 0 = Some (j, cand, cnt)"
    and s: "py_index datetime (int i) = Inr start_t"
    and e: "py_index datetime (int j - G) = Inr end_t"
    and r: "radar_df station start_t end_t = Inr rows"
    and avg: "\<not> isnan (fst (snd (min_avg_max (py_drop_last cand cnt))))"
    and mis: "temporal_res = ''6min'' \<and> length (butlast rows) \<noteq> 10 * length (py_drop_last cand cnt)
         \<or> (temporal_res = ''60min'' \<or> temporal_res = ''1H'')
            \<and> length (butlast rows) \<noteq> length (py_drop_last cand cnt)"
  shows "select_events_single_station station vals datetime radar_df G thr temporal_res
         = Inl ConsistencyError"
proof -
  from gap have inb: "i < length vals" using for_j_bounds by fastforce
  from s e r avg mis
  have "close_candidate station datetime radar_df G temporal_res i j cand cnt st = Inl ConsistencyError"
    by (rule close_candidate_mismatch)
  with above gap
  have "loop_body station vals datetime radar_df G thr temporal_res i st = Inl ConsistencyError"
    by (simp add: loop_body_def)
  with inb have "while_i station vals datetime radar_df G thr temporal_res i st = Inl ConsistencyError"
    by (simp add: while_i.simps [of station vals datetime radar_df G thr temporal_res i st])
  with scan_reaches_run [OF reach] show ?thesis by simp
qed

theorem mismatch_fails_run_witness:
  "scan_reaches ''A'' showers_gap1 five_hours (loc_values radar_hourly) 1 (Fin 0.1) ''6min'' 0 ([], [], [])
   \<and> fge (showers_gap1 ! 0) (Fin 0.1)
   \<and> for_j showers_gap1 (Fin 0.1) 1 0 [] 0 = Some (4, [Fin 0.2, Fin 0, Fin 0.3, Fin 0, Fin 0], 2)
   \<and> loc_values radar_hourly ''A'' 0 10800 = Inr [Fin 4, Fin 2, Fin 6, Fin 1]
   \<and> select_events_single_station ''A'' showers_gap1 five_hours (loc_values radar_hourly) 1 (Fin 0.1) ''6min''
       = Inl ConsistencyError"
proof -
  let ?cand = "[Fin 0.2, Fin 0, Fin 0.3, Fin 0, Fin 0]"
  have reach: "scan_reaches ''A'' showers_gap1 five_hours (loc_values radar_hourly) 1 (Fin 0.1) ''6min'' 0 ([], [], [])"
    by (rule scan_reaches.start)
  have above: "fge (showers_gap1 ! 0) (Fin 0.1)" by (simp add: showers_gap1_def)
  have gap: "for_j showers_gap1 (Fin 0.1) 1 0 [] 0 = Some (4, ?cand, 2)"
    by (simp add: for_j.simps showers_gap1_def)
  have s: "py_index five_hours (int 0) = Inr 0" by (simp add: py_index_def five_hours_def)
  have e: "py_index five_hours (int 4 - 1) = Inr 10800" by (simp add: py_index_def five_hours_def)
  have r: "loc_values radar_hourly ''A'' 0 10800 = Inr [Fin 4, Fin 2, Fin 6, Fin 1]"
    by (simp add: loc_values_def radar_hourly_def)
  have avg: "\<not> isnan (fst (snd (min_avg_max (py_drop_last ?cand 2))))"
    by (simp add: min_avg_max_def mean_def py_drop_last_def)
  have mis: "''6min'' = ''6min'' \<and> length (butlast [Fin 4, Fin 2, Fin 6, Fin 1]) \<noteq> 10 * length (py_drop_last ?cand 2)
         \<or> (''6min'' = ''60min'' \<or> ''6min'' = ''1H'')
            \<and> length (butlast [Fin 4, Fin 2, Fin 6, Fin 1]) \<noteq> length (py_drop_last ?cand 2)"
    by (simp add: py_drop_last_def)
  from mismatch_fails_run [OF reach above gap s e r avg mis] reach above gap r
  show ?thesis by blast
qed

section \<open>NaN statistics and the ordering of the statistics\<close>

definition radar_6min_nan :: "(string \<times> (int \<times> fval) list) list" where
  "radar_6min_nan = [(''A'', map (\<lambda>k. (360 * int k, if k = 1 then NaN else Fin 1)) [0..<31])]"


text \<open>
  C5. A radar column sampled every six minutes with one missing (NaN) sample in the
  first hour. The event of the first shower is returned with \<open>reflect_avg = nan\<close>:
  only \<open>rain_intens_avg\<close> is tested before the Event is constructed.
\<close>

theorem nan_reflectivity_event_persisted:
  "select_events_single_station ''A'' two_showers four_hours (loc_values radar_6min_nan) 0 (Fin 0.1) ''6min''
     = Inr ([Event 0 3600 [''A''] (Fin 1) NaN (Fin 1) (Fin 0.2) (Fin 0.2) (Fin 0.2)],
            [Fin 1, NaN, Fin 1, Fin 1, Fin 1, Fin 1, Fin 1, Fin 1, Fin 1, Fin 1], [Fin 0.2])
   \<and> isnan (reflect_avg (Event 0 3600 [''A''] (Fin 1) NaN (Fin 1) (Fin 0.2) (Fin 0.2) (Fin 0.2)))"
  by (simp add: run_simps two_showers_def four_hours_def radar_6min_nan_def Event_def)


text \<open>
  The merge weights the averages by the durations and has no guard on their sign. An
  event that ends before it starts (a time index that is not increasing) has a negative
  duration, and merging it with an ordered event can push the average below the minimum:
  here \<open>(10 * 2 + 20 * (-1)) / (2 - 1) = 0 < 10\<close>.
\<close>

definition ev_flat :: event where
  "ev_flat = Event 0 7200 [''A''] (Fin 10) (Fin 10) (Fin 10) (Fin 1) (Fin 1) (Fin 1)"

definition ev_backwards :: event where
  "ev_backwards = Event 7200 3600 [''B''] (Fin 20) (Fin 20) (Fin 20) (Fin 2) (Fin 2) (Fin 2)"

lemma merge_negative_duration_not_ordered:
  "stats_ordered ev_flat \<and> stats_ordered ev_backwards \<and> duration ev_backwards = - 1
   \<and> merge_two_events ev_flat ev_backwards
       = Inr (Event 0 7200 [''A'', ''B''] (Fin 10) (Fin 0) (Fin 20) (Fin 1) (Fin 0) (Fin 2))
   \<and> \<not> stats_ordered (Event 0 7200 [''A'', ''B''] (Fin 10) (Fin 0) (Fin 20) (Fin 1) (Fin 0) (Fin 2))"
  by (simp add: ev_flat_def ev_backwards_def Event_def merge_two_events_def stats_ordered_def
      py_min2_def py_max2_def)



section \<open>The cleaned samples\<close>

text \<open>One gauge with a two-hour shower; the radar has a zero sample in the second hour.\<close>

definition rain_one_station :: "int list \<times> (string \<times> fval list) list" where
  "rain_one_station = ([0, 3600, 7200, 10800], [(''A'', [Fin 0.2, Fin 0.3, Fin 0, Fin 0])])"

definition radar_with_zero :: "(string \<times> (int \<times> fval) list) list" where
  "radar_with_zero = [(''A'', map (\<lambda>k. (360 * int k, if k = 12 then Fin 0 else Fin 1)) [0..<31])]"

text \<open>
  C7. Whenever \<open>select_all_events\<close> returns, the reflectivity rows and the rain values
  it returns are equally many, no entry of a row is NaN or zero, and no rain value is
  NaN or zero.
\<close>

theorem assembled_samples_clean:
  assumes "select_all_events rain_df radar_df max_no_rain min_rain_threshold = Inr (events, Z, R)"
  shows "length Z = length R
         \<and> (\<forall>row \<in> set Z. \<forall>z \<in> set row. \<not> isnan z \<and> z \<noteq> Fin 0)
         \<and> (\<forall>r \<in> set R. \<not> isnan r \<and> r \<noteq> Fin 0)"
proof -
  from assms obtain acc where
    acc: "for_stations (snd rain_df) (fst rain_df) radar_df max_no_rain min_rain_threshold ([], [], []) = Inr acc"
    by (cases "for_stations (snd rain_df) (fst rain_df) radar_df max_no_rain min_rain_threshold ([], [], [])")
       (simp_all add: select_all_events_def)
  from assms acc obtain evs where
    evs: "(if length (fst acc) > 1 then merge_overlapping_events (fst acc) else Inr (fst acc)) = Inr evs"
    by (cases "if length (fst acc) > 1 then merge_overlapping_events (fst acc) else Inr (fst acc)")
       (simp_all add: select_all_events_def)
  from assms acc evs obtain rows where rows: "reshape_rows (fst (snd acc)) = Inr rows"
    by (cases "reshape_rows (fst (snd acc))") (simp_all add: select_all_events_def)
  from assms acc evs rows have len: "length rows = length (snd (snd acc))"
    and res: "clean_pairs rows (snd (snd acc)) = (Z, R)"
    by (simp_all add: select_all_events_def split: if_splits)
  from len res show ?thesis by (rule clean_pairs_clean)
qed

theorem assembled_samples_clean_witness:
  "select_all_events rain_one_station (loc_values radar_with_zero) 0 (Fin 0.1)
     = Inr ([Event 0 7200 [''A''] (Fin 0) (Fin (19 / 20)) (Fin 1) (Fin 0.2) (Fin (1 / 4)) (Fin 0.3)],
            [[Fin 1, Fin 1, Fin 1, Fin 1, Fin 1, Fin 1, Fin 1, Fin 1, Fin 1, Fin 1]],
            [Fin 0.2])
   \<and> length [[Fin 1, Fin 1, Fin 1, Fin 1, Fin 1, Fin 1, Fin 1, Fin 1, Fin 1, Fin 1 :: fval]]
       = length [Fin 0.2 :: fval]
   \<and> list_all (list_all (\<lambda>z. \<not> isnan z \<and> z \<noteq> Fin 0))
        [[Fin 1, Fin 1, Fin 1, Fin 1, Fin 1, Fin 1, Fin 1, Fin 1, Fin 1, Fin 1]]
   \<and> list_all (\<lambda>r. \<not> isnan r \<and> r \<noteq> Fin 0) [Fin 0.2]"
proof -
  let ?ev = "Event 0 7200 [''A''] (Fin 0) (Fin (19 / 20)) (Fin 1) (Fin 0.2) (Fin (1 / 4)) (Fin 0.3)"
  let ?ones = "[Fin 1, Fin 1, Fin 1, Fin 1, Fin 1, Fin 1, Fin 1, Fin 1, Fin 1, Fin 1]"
  let ?zrow = "[Fin 1, Fin 1, Fin 0, Fin 1, Fin 1, Fin 1, Fin 1, Fin 1, Fin 1, Fin 1]"
  have seg: "select_events_single_station ''A'' [Fin 0.2, Fin 0.3, Fin 0, Fin 0] [0, 3600, 7200, 10800]
      (loc_values radar_with_zero) 0 (Fin 0.1) ''6min''
     = Inr ([?ev], ?ones @ ?zrow, [Fin 0.2, Fin 0.3])"
    by (simp add: run_simps radar_with_zero_def)
  have st: "for_stations [(''A'', [Fin 0.2, Fin 0.3, Fin 0, Fin 0])] [0, 3600, 7200, 10800]
      (loc_values radar_with_zero) 0 (Fin 0.1) ([], [], [])
     = Inr ([?ev], ?ones @ ?zrow, [Fin 0.2, Fin 0.3])"
    unfolding for_stations.simps seg by simp
  have rs: "reshape_rows (?ones @ ?zrow) = Inr [?ones, ?zrow]"
    by (simp add: reshape_rows_def upt_rec)
  have cl: "clean_pairs [?ones, ?zrow] [Fin 0.2, Fin 0.3] = ([?ones], [Fin 0.2])"
    by (simp add: clean_pairs_def drop_zero_reflect_def drop_nan_reflect_def drop_zero_rain_def
        drop_nan_rain_def mask_select_def)
  have run: "select_all_events rain_one_station (loc_values radar_with_zero) 0 (Fin 0.1)
     = Inr ([?ev], [?ones], [Fin 0.2])"
    unfolding select_all_events_def rain_one_station_def fst_conv snd_conv st sum.case rs cl
    by simp
  from assembled_samples_clean [OF run] run show ?thesis
    by (simp add: list_all_iff)
qed

end
